theory Spec2Isabelle
  imports Main
begin

section \<open>Values of the Go runtime and of the libraries the source calls\<close>

text \<open>
  The source is \<^verbatim>\<open>src/cmd/run-benchmarks/run_benchmarks.go\<close>, package \<^verbatim>\<open>jasper\<close>:
  the unsynchronised \<^verbatim>\<open>basicProcess\<close> and its locking decorator \<^verbatim>\<open>localProcess\<close>.

  A Go \<^verbatim>\<open>error\<close> is an interface value; \<^verbatim>\<open>nil\<close> is \<open>None\<close>. The constructors are
  the ways the source and its environment make one: \<^verbatim>\<open>errors.New\<close>, \<^verbatim>\<open>errors.Wrap\<close> and
  \<^verbatim>\<open>errors.Wrapf\<close> (a cause and a message; \<^verbatim>\<open>Wrapf\<close> keeps its format and arguments),
  \<^verbatim>\<open>errors.WithStack\<close>, and an error handed over by the operating system or by the
  standard library.
\<close>

datatype error =
    New string
  | Wrapped error string "string list"
  | Stacked error
  | OSError string

text \<open>
  \<^verbatim>\<open>errors.Wrapf\<close> and \<^verbatim>\<open>errors.WithStack\<close> return nil for a nil error.
  \<^verbatim>\<open>errors.Wrap\<close> is only called on an error that is not nil, and is \<open>Wrapped\<close> with no
  arguments.
\<close>

fun Wrapf :: "error option \<Rightarrow> string \<Rightarrow> string list \<Rightarrow> error option" where
  "Wrapf None fmt args = None"
| "Wrapf (Some e) fmt args = Some (Wrapped e fmt args)"

fun WithStack :: "error option \<Rightarrow> error option" where
  "WithStack None = None"
| "WithStack (Some e) = Some (Stacked e)"

text \<open>
  A call either panics, or does not come back within the sequential code (it is parked
  on a lock or on the wait protocol, whose end depends on other goroutines), or returns.
\<close>

datatype panic = NilPointerDereference | PanicError error

datatype 'a outcome = Panic panic | Blocked | Return 'a

fun map_outcome :: "('a \<Rightarrow> 'b) \<Rightarrow> 'a outcome \<Rightarrow> 'b outcome" where
  "map_outcome f (Panic x) = Panic x"
| "map_outcome f Blocked = Blocked"
| "map_outcome f (Return v) = Return (f v)"

fun bind_outcome :: "'a outcome \<Rightarrow> ('a \<Rightarrow> 'b outcome) \<Rightarrow> 'b outcome" where
  "bind_outcome (Panic x) f = Panic x"
| "bind_outcome Blocked f = Blocked"
| "bind_outcome (Return v) f = f v"

text \<open>Reading through a pointer: nil panics.\<close>

fun deref :: "'a option \<Rightarrow> 'a outcome" where
  "deref None = Panic NilPointerDereference"
| "deref (Some x) = Return x"

text \<open>
  A Go slice value is nil or holds elements; \<^verbatim>\<open>append\<close> to either gives a slice that
  is not nil. Only \<^verbatim>\<open>GetTags\<close> needs the difference; the tag sequence of the options is
  never compared with nil by the source and is a plain list.
\<close>

datatype 'a slice = NilSlice | Slice "'a list"

fun append_slice :: "'a slice \<Rightarrow> 'a \<Rightarrow> 'a slice" where
  "append_slice NilSlice x = Slice [x]"
| "append_slice (Slice xs) x = Slice (xs @ [x])"

text \<open>
  \<^verbatim>\<open>os.Process\<close>, \<^verbatim>\<open>os.ProcessState\<close> and \<^verbatim>\<open>exec.Cmd\<close>, as far as the source reads them:
  the pid, the two observations \<^verbatim>\<open>Exited()\<close> and \<^verbatim>\<open>Success()\<close> of a captured exit status,
  and the two pointers of a command, each of which may be nil.
\<close>

record os_Process =
  Pid :: int

record os_ProcessState =
  Exited :: bool
  Success :: bool

record Cmd =
  Process :: "os_Process option"
  ProcessState :: "os_ProcessState option"

text \<open>\<^verbatim>\<open>context.Context\<close>: the sequential code only passes it on.\<close>

datatype Context = Context (ctx_Err: "error option")

text \<open>
  Modelled from the spec: the declaration of \<^verbatim>\<open>CreateOptions\<close> is not among the files at
  hand. The options "carry an ordered sequence of tags for external reporting"; the
  source reads and appends to \<^verbatim>\<open>Tags\<close> and sets the flag \<^verbatim>\<open>started\<close>. The command
  line stands for the remaining fields, which the source only copies.
\<close>

record CreateOptions =
  Args :: "string list"
  Tags :: "string list"
  started :: bool

text \<open>
  Modelled from the spec: the declaration of \<^verbatim>\<open>ProcessInfo\<close> is not among the files at
  hand. Its fields are "id, the resolved creation options, managing host name, complete
  flag, running flag, success flag, OS process id", under the names \<^verbatim>\<open>Info\<close> gives them.
\<close>

record ProcessInfo =
  ID :: string
  Options :: CreateOptions
  Host :: string
  Complete :: bool
  IsRunning :: bool
  Successful :: bool
  PID :: int

text \<open>
  What the source asks of its surroundings, taken as parameters:
  \<^item> \<open>Resolve\<close>: \<^verbatim>\<open>opts.Resolve(ctx)\<close>, declared outside the files at hand, gives an
    error or a command that is not nil;
  \<^item> \<open>Start\<close>: \<^verbatim>\<open>cmd.Start()\<close>, whose error the source drops; what is left of it is
    the command afterwards (its \<^verbatim>\<open>Process\<close> stays nil when the start failed);
  \<^item> \<open>uuid_NewV4\<close> and \<open>os_Hostname\<close>: the identifier generator, which can fail, and
    the host name (empty when the system gives none);
  \<^item> \<open>os_Signal\<close> and \<open>Signal_String\<close>: \<^verbatim>\<open>(*os.Process).Signal\<close> and the name of a
    signal;
  \<^item> \<open>range_keys\<close>: the order in which \<^verbatim>\<open>range\<close> visits the keys of a map, which the
    runtime chooses.
\<close>

record Env =
  Resolve :: "Context \<Rightarrow> CreateOptions \<Rightarrow> error + Cmd"
  Start :: "Cmd \<Rightarrow> Cmd"
  uuid_NewV4 :: "error + string"
  os_Hostname :: string
  os_Signal :: "os_Process option \<Rightarrow> int \<Rightarrow> error option"
  Signal_String :: "int \<Rightarrow> string"
  range_keys :: "(string \<rightharpoonup> unit) \<Rightarrow> string list"

text \<open>The guarantee of \<^verbatim>\<open>range\<close> over a map: every key once, in some order.\<close>

definition visits_each_key_once :: "Env \<Rightarrow> (string \<rightharpoonup> unit) \<Rightarrow> bool" where
  "visits_each_key_once env m =
     (distinct (range_keys env m) \<and> set (range_keys env m) = dom m)"

section \<open>basicProcess\<close>

text \<open>
  The struct of the source. The field \<^verbatim>\<open>id\<close> is \<open>id'\<close> here. \<^verbatim>\<open>tags\<close> is the Go
  map \<^verbatim>\<open>map[string]struct{}\<close>, which the constructor and \<^verbatim>\<open>ResetTags\<close> always
  allocate. A trigger is a callback the sequential code only stores, so its type is a
  parameter and nil is \<open>None\<close>.
\<close>

record 't basicProcess =
  id' :: string
  hostname :: string
  opts :: CreateOptions
  cmd :: "Cmd option"
  tags :: "string \<rightharpoonup> unit"
  triggers :: "'t list"

definition basicProcess_ID :: "'t basicProcess \<Rightarrow> string" where
  "basicProcess_ID p = id' p"

text \<open>
  \<^verbatim>\<open>Complete\<close>: the last line reads \<^verbatim>\<open>p.cmd.Process.Pid\<close> with no test of
  \<^verbatim>\<open>p.cmd.Process\<close>, which is a nil pointer dereference when the command never started.
\<close>

definition basicProcess_Complete :: "Context \<Rightarrow> 't basicProcess \<Rightarrow> bool outcome" where
  "basicProcess_Complete ctx p =
     (case cmd p of
        None \<Rightarrow> Return False
      | Some c \<Rightarrow>
          if (case ProcessState c of None \<Rightarrow> False | Some st \<Rightarrow> Exited st) then Return True
          else bind_outcome (deref (Process c)) (\<lambda>pr. Return (Pid pr = - 1)))"

definition basicProcess_Running :: "Context \<Rightarrow> 't basicProcess \<Rightarrow> bool" where
  "basicProcess_Running ctx p =
     (case cmd p of
        None \<Rightarrow> False
      | Some c \<Rightarrow>
          (case Process c of
             None \<Rightarrow> False
           | Some pr \<Rightarrow>
               if (case ProcessState c of None \<Rightarrow> False | Some st \<Rightarrow> \<not> Exited st) then True
               else if Pid pr < 0 then False
               else True))"

text \<open>
  \<^verbatim>\<open>Info\<close>: the literal is built first (\<^verbatim>\<open>Successful\<close> and \<^verbatim>\<open>PID\<close> at their zero
  values), then the two \<^verbatim>\<open>if\<close> statements run in order. \<^verbatim>\<open>ProcessState.Success()\<close>
  reads through the pointer.
\<close>

definition basicProcess_Info :: "Context \<Rightarrow> 't basicProcess \<Rightarrow> ProcessInfo outcome" where
  "basicProcess_Info ctx p =
     bind_outcome (basicProcess_Complete ctx p) (\<lambda>complete.
       let info = \<lparr> ID = id' p, Options = opts p, Host = hostname p,
                    Complete = complete, IsRunning = basicProcess_Running ctx p,
                    Successful = False, PID = 0 \<rparr>
       in bind_outcome
            (if Complete info
             then bind_outcome (deref (cmd p)) (\<lambda>c.
                  bind_outcome (deref (ProcessState c)) (\<lambda>st.
                    Return (info\<lparr> Successful := Success st, PID := - 1 \<rparr>)))
             else Return info)
            (\<lambda>info.
               if IsRunning info
               then bind_outcome (deref (cmd p)) (\<lambda>c.
                    bind_outcome (deref (Process c)) (\<lambda>pr.
                      Return (info\<lparr> PID := Pid pr \<rparr>)))
               else Return info))"

text \<open>The format of the message of \<^verbatim>\<open>Signal\<close>, with its quoted placeholders.\<close>

definition signal_format :: string where
  "signal_format =
     ''problem sending signal '' @ [CHR 0x27] @ ''%s'' @ [CHR 0x27] @
     '' to '' @ [CHR 0x27] @ ''%s'' @ [CHR 0x27]"

definition basicProcess_Signal ::
  "Env \<Rightarrow> Context \<Rightarrow> int \<Rightarrow> 't basicProcess \<Rightarrow> error option outcome" where
  "basicProcess_Signal env ctx sig p =
     bind_outcome (deref (cmd p)) (\<lambda>c.
       Return (Wrapf (os_Signal env (Process c) sig) signal_format
                 [Signal_String env sig, id' p]))"

text \<open>
  \<^verbatim>\<open>Wait\<close>, up to the point where it starts its goroutine. The two guards return nil
  at once. Past them the call parks on a \<^verbatim>\<open>select\<close> between the context and a channel
  fed by a second goroutine: which of the two comes first, and what the triggers have
  done by then, is decided by the scheduler and is outside this sequential embedding,
  which says \<open>Blocked\<close> there.
\<close>

definition basicProcess_Wait :: "Context \<Rightarrow> 't basicProcess \<Rightarrow> error option outcome" where
  "basicProcess_Wait ctx p =
     (case cmd p of
        None \<Rightarrow> Return None
      | Some c \<Rightarrow>
          (case Process c of
             None \<Rightarrow> Return None
           | Some pr \<Rightarrow>
               if (case ProcessState c of None \<Rightarrow> False | Some st \<Rightarrow> Exited st)
               then Return None
               else Blocked))"

text \<open>
  \<^verbatim>\<open>RegisterTrigger\<close>. The guard is \<^verbatim>\<open>p.cmd != nil || p.cmd.Process.Pid == -1\<close>: the
  right operand is evaluated only when \<^verbatim>\<open>p.cmd\<close> is nil, and then reads through it.
\<close>

definition basicProcess_RegisterTrigger ::
  "'t option \<Rightarrow> 't basicProcess \<Rightarrow> error option outcome \<times> 't basicProcess" where
  "basicProcess_RegisterTrigger trigger p =
     (case (if cmd p \<noteq> None then Return True
            else bind_outcome (deref (cmd p)) (\<lambda>c.
                 bind_outcome (deref (Process c)) (\<lambda>pr. Return (Pid pr = - 1)))) of
        Panic x \<Rightarrow> (Panic x, p)
      | Blocked \<Rightarrow> (Blocked, p)
      | Return True \<Rightarrow> (Return (Some (New ''cannot register trigger for complete project'')), p)
      | Return False \<Rightarrow>
          (case trigger of
             None \<Rightarrow> (Return (Some (New ''cannot register nil trigger'')), p)
           | Some trg \<Rightarrow> (Return None, p\<lparr> triggers := triggers p @ [trg] \<rparr>)))"

definition basicProcess_Tag :: "string \<Rightarrow> 't basicProcess \<Rightarrow> 't basicProcess" where
  "basicProcess_Tag t p =
     (if tags p t \<noteq> None then p
      else p\<lparr> tags := (tags p)(t \<mapsto> ()),
              opts := (opts p)\<lparr> Tags := Tags (opts p) @ [t] \<rparr> \<rparr>)"

definition basicProcess_ResetTags :: "'t basicProcess \<Rightarrow> 't basicProcess" where
  "basicProcess_ResetTags p = p\<lparr> tags := Map.empty, opts := (opts p)\<lparr> Tags := [] \<rparr> \<rparr>"

definition basicProcess_GetTags :: "Env \<Rightarrow> 't basicProcess \<Rightarrow> string slice" where
  "basicProcess_GetTags env p = foldl append_slice (Slice []) (range_keys env (tags p))"

text \<open>
  \<^verbatim>\<open>newBasicProcess\<close>, called with options that are not nil. It returns the error of
  \<^verbatim>\<open>Resolve\<close>, wrapped, or the process; \<^verbatim>\<open>uuid.Must\<close> panics when the generator
  fails. The second component is the caller's \<^verbatim>\<open>*opts\<close> afterwards. The struct
  copies \<^verbatim>\<open>*opts\<close>, tag sequence included, and the loop then calls \<^verbatim>\<open>Tag\<close> for every
  tag of that sequence.
\<close>

definition newBasicProcess ::
  "Env \<Rightarrow> Context \<Rightarrow> CreateOptions \<Rightarrow> (error + 't basicProcess) outcome \<times> CreateOptions" where
  "newBasicProcess env ctx options =
     (case Resolve env ctx options of
        Inl err \<Rightarrow>
          (Return (Inl (Wrapped err ''problem building command from options'' [])), options)
      | Inr c \<Rightarrow>
          let c' = Start env c;
              options' = options\<lparr> started := True \<rparr>
          in (case uuid_NewV4 env of
                Inl err \<Rightarrow> (Panic (PanicError err), options')
              | Inr u \<Rightarrow>
                  let p = \<lparr> id' = u, hostname = [], opts = options', cmd = Some c',
                           tags = Map.empty, triggers = [] \<rparr>;
                      p = p\<lparr> hostname := os_Hostname env \<rparr>
                  in (Return (Inr (foldl (\<lambda>p t. basicProcess_Tag t p) p (Tags options'))),
                      options')))"

text \<open>
  The tag bookkeeping is consistent when the ordered sequence has no duplicates and
  holds exactly the keys of the map.
\<close>

definition tags_consistent :: "'t basicProcess \<Rightarrow> bool" where
  "tags_consistent p = (distinct (Tags (opts p)) \<and> set (Tags (opts p)) = dom (tags p))"

datatype tag_call = CallTag string | CallResetTags

fun run_tag_call :: "'t basicProcess \<Rightarrow> tag_call \<Rightarrow> 't basicProcess" where
  "run_tag_call p (CallTag t) = basicProcess_Tag t p"
| "run_tag_call p CallResetTags = basicProcess_ResetTags p"

section \<open>The Process interface and localProcess\<close>

text \<open>
  Modelled from the spec: the declaration of the interface \<^verbatim>\<open>Process\<close> is not among the
  files at hand. It is the capability "ID, Info, Running, Complete, Signal, Tag,
  ResetTags, GetTags, RegisterTrigger, Wait", with the signatures the methods of
  \<^verbatim>\<open>localProcess\<close> have: a method table over some receiver state \<open>'p\<close>. A method may
  change its receiver, so each gives the receiver back.
\<close>

record ('p, 't) Process =
  Process_ID :: "'p \<Rightarrow> string outcome \<times> 'p"
  Process_Info :: "Context \<Rightarrow> 'p \<Rightarrow> ProcessInfo outcome \<times> 'p"
  Process_Running :: "Context \<Rightarrow> 'p \<Rightarrow> bool outcome \<times> 'p"
  Process_Complete :: "Context \<Rightarrow> 'p \<Rightarrow> bool outcome \<times> 'p"
  Process_Signal :: "Context \<Rightarrow> int \<Rightarrow> 'p \<Rightarrow> error option outcome \<times> 'p"
  Process_Tag :: "string \<Rightarrow> 'p \<Rightarrow> unit outcome \<times> 'p"
  Process_ResetTags :: "'p \<Rightarrow> unit outcome \<times> 'p"
  Process_GetTags :: "'p \<Rightarrow> string slice outcome \<times> 'p"
  Process_RegisterTrigger :: "'t option \<Rightarrow> 'p \<Rightarrow> error option outcome \<times> 'p"
  Process_Wait :: "Context \<Rightarrow> 'p \<Rightarrow> error option outcome \<times> 'p"

text \<open>The method set of \<^verbatim>\<open>*basicProcess\<close>.\<close>

definition basicProcess_methods :: "Env \<Rightarrow> ('t basicProcess, 't) Process" where
  "basicProcess_methods env =
     \<lparr> Process_ID = (\<lambda>p. (Return (basicProcess_ID p), p)),
       Process_Info = (\<lambda>ctx p. (basicProcess_Info ctx p, p)),
       Process_Running = (\<lambda>ctx p. (Return (basicProcess_Running ctx p), p)),
       Process_Complete = (\<lambda>ctx p. (basicProcess_Complete ctx p, p)),
       Process_Signal = (\<lambda>ctx sig p. (basicProcess_Signal env ctx sig p, p)),
       Process_Tag = (\<lambda>t p. (Return (), basicProcess_Tag t p)),
       Process_ResetTags = (\<lambda>p. (Return (), basicProcess_ResetTags p)),
       Process_GetTags = (\<lambda>p. (Return (basicProcess_GetTags env p), p)),
       Process_RegisterTrigger = basicProcess_RegisterTrigger,
       Process_Wait = (\<lambda>ctx p. (basicProcess_Wait ctx p, p)) \<rparr>"

text \<open>
  \<^verbatim>\<open>sync.RWMutex\<close>: the number of readers inside and whether a writer is inside. A
  lock that cannot be taken parks the caller (\<open>None\<close>).
\<close>

record RWMutex =
  readers :: nat
  writer :: bool

definition RLock :: "RWMutex \<Rightarrow> RWMutex option" where
  "RLock m = (if writer m then None else Some (m\<lparr> readers := readers m + 1 \<rparr>))"

definition RUnlock :: "RWMutex \<Rightarrow> RWMutex" where
  "RUnlock m = m\<lparr> readers := readers m - 1 \<rparr>"

definition Lock :: "RWMutex \<Rightarrow> RWMutex option" where
  "Lock m = (if writer m \<or> 0 < readers m then None else Some (m\<lparr> writer := True \<rparr>))"

definition Unlock :: "RWMutex \<Rightarrow> RWMutex" where
  "Unlock m = m\<lparr> writer := False \<rparr>"

text \<open>
  The struct: the interface value (method table and receiver) and the mutex.
\<close>

record ('p, 't) localProcess =
  proc :: "('p, 't) Process \<times> 'p"
  mutex :: RWMutex

text \<open>
  Every method of the wrapper is \<^verbatim>\<open>p.mutex.RLock(); defer p.mutex.RUnlock()\<close> or
  \<^verbatim>\<open>p.mutex.Lock(); defer p.mutex.Unlock()\<close> around one call of the wrapped method.
  The deferred unlock runs when the call returns or panics; a call that stays parked
  keeps the lock.
\<close>

definition under_RLock ::
  "(('p, 't) Process \<Rightarrow> 'p \<Rightarrow> 'r outcome \<times> 'p) \<Rightarrow> ('p, 't) localProcess \<Rightarrow>
   'r outcome \<times> ('p, 't) localProcess" where
  "under_RLock call lp =
     (case RLock (mutex lp) of
        None \<Rightarrow> (Blocked, lp)
      | Some m \<Rightarrow>
          (case call (fst (proc lp)) (snd (proc lp)) of
             (r, s) \<Rightarrow>
               (r, lp\<lparr> proc := (fst (proc lp), s),
                       mutex := (if r = Blocked then m else RUnlock m) \<rparr>)))"

definition under_Lock ::
  "(('p, 't) Process \<Rightarrow> 'p \<Rightarrow> 'r outcome \<times> 'p) \<Rightarrow> ('p, 't) localProcess \<Rightarrow>
   'r outcome \<times> ('p, 't) localProcess" where
  "under_Lock call lp =
     (case Lock (mutex lp) of
        None \<Rightarrow> (Blocked, lp)
      | Some m \<Rightarrow>
          (case call (fst (proc lp)) (snd (proc lp)) of
             (r, s) \<Rightarrow>
               (r, lp\<lparr> proc := (fst (proc lp), s),
                       mutex := (if r = Blocked then m else Unlock m) \<rparr>)))"

text \<open>The result of a wrapped call that returns an error goes through \<^verbatim>\<open>errors.WithStack\<close>.\<close>

definition with_stack :: "error option outcome \<times> 'p \<Rightarrow> error option outcome \<times> 'p" where
  "with_stack res = (map_outcome WithStack (fst res), snd res)"

definition localProcess_ID ::
  "('p, 't) localProcess \<Rightarrow> string outcome \<times> ('p, 't) localProcess" where
  "localProcess_ID lp = under_RLock (\<lambda>P s. Process_ID P s) lp"

definition localProcess_Info ::
  "Context \<Rightarrow> ('p, 't) localProcess \<Rightarrow> ProcessInfo outcome \<times> ('p, 't) localProcess" where
  "localProcess_Info ctx lp = under_RLock (\<lambda>P s. Process_Info P ctx s) lp"

definition localProcess_Running ::
  "Context \<Rightarrow> ('p, 't) localProcess \<Rightarrow> bool outcome \<times> ('p, 't) localProcess" where
  "localProcess_Running ctx lp = under_RLock (\<lambda>P s. Process_Running P ctx s) lp"

definition localProcess_Complete ::
  "Context \<Rightarrow> ('p, 't) localProcess \<Rightarrow> bool outcome \<times> ('p, 't) localProcess" where
  "localProcess_Complete ctx lp = under_RLock (\<lambda>P s. Process_Complete P ctx s) lp"

definition localProcess_Signal ::
  "Context \<Rightarrow> int \<Rightarrow> ('p, 't) localProcess \<Rightarrow>
   error option outcome \<times> ('p, 't) localProcess" where
  "localProcess_Signal ctx sig lp =
     under_Lock (\<lambda>P s. with_stack (Process_Signal P ctx sig s)) lp"

definition localProcess_Tag ::
  "string \<Rightarrow> ('p, 't) localProcess \<Rightarrow> unit outcome \<times> ('p, 't) localProcess" where
  "localProcess_Tag t lp = under_Lock (\<lambda>P s. Process_Tag P t s) lp"

definition localProcess_ResetTags ::
  "('p, 't) localProcess \<Rightarrow> unit outcome \<times> ('p, 't) localProcess" where
  "localProcess_ResetTags lp = under_Lock (\<lambda>P s. Process_ResetTags P s) lp"

definition localProcess_GetTags ::
  "('p, 't) localProcess \<Rightarrow> string slice outcome \<times> ('p, 't) localProcess" where
  "localProcess_GetTags lp = under_RLock (\<lambda>P s. Process_GetTags P s) lp"

definition localProcess_RegisterTrigger ::
  "'t option \<Rightarrow> ('p, 't) localProcess \<Rightarrow>
   error option outcome \<times> ('p, 't) localProcess" where
  "localProcess_RegisterTrigger trigger lp =
     under_Lock (\<lambda>P s. with_stack (Process_RegisterTrigger P trigger s)) lp"

definition localProcess_Wait ::
  "Context \<Rightarrow> ('p, 't) localProcess \<Rightarrow>
   error option outcome \<times> ('p, 't) localProcess" where
  "localProcess_Wait ctx lp = under_Lock (\<lambda>P s. with_stack (Process_Wait P ctx s)) lp"

text \<open>
  What forwarding means for one call, given the mutex \<open>m0\<close> and the receiver before it,
  the result \<open>res\<close> of the wrapper and the result \<open>inner\<close> of the wrapped method on the
  receiver alone: the same outcome, the receiver as the wrapped method left it, the
  method table untouched, and the mutex back where it was once the call is over.
\<close>

definition forwards ::
  "('p, 't) localProcess \<Rightarrow> 'r outcome \<times> ('p, 't) localProcess \<Rightarrow> 'r outcome \<times> 'p \<Rightarrow> bool" where
  "forwards lp res inner =
     (fst res = fst inner \<and>
      proc (snd res) = (fst (proc lp), snd inner) \<and>
      (fst inner = Blocked \<or> mutex (snd res) = mutex lp))"

text \<open>
  Two outcomes carry the same error up to nil: both panic alike, both stay parked, or
  both return and one error is nil exactly when the other is.
\<close>

fun same_nilness :: "error option outcome \<Rightarrow> error option outcome \<Rightarrow> bool" where
  "same_nilness (Return e) r = (case r of Return e' \<Rightarrow> (e = None) = (e' = None) | _ \<Rightarrow> False)"
| "same_nilness (Panic x) r = (r = Panic x)"
| "same_nilness Blocked r = (r = Blocked)"

section \<open>Concrete processes and environments\<close>

definition background :: Context where
  "background = Context None"

text \<open>A process that ran and whose exit was reaped: pid 1234, exit status 0.\<close>

definition exited_process :: "string basicProcess" where
  "exited_process =
     \<lparr> id' = ''p1'', hostname = ''host'',
       opts = \<lparr> Args = [''true''], Tags = [], started = True \<rparr>,
       cmd = Some \<lparr> Process = Some \<lparr> Pid = 1234 \<rparr>,
                    ProcessState = Some \<lparr> Exited = True, Success = True \<rparr> \<rparr>,
       tags = Map.empty, triggers = [] \<rparr>"

text \<open>A process that is running and has not been waited for: pid 4321, no exit status.\<close>

definition running_process :: "string basicProcess" where
  "running_process =
     \<lparr> id' = ''p2'', hostname = ''host'',
       opts = \<lparr> Args = [''sleep'', ''2''], Tags = [], started = True \<rparr>,
       cmd = Some \<lparr> Process = Some \<lparr> Pid = 4321 \<rparr>, ProcessState = None \<rparr>,
       tags = Map.empty, triggers = [] \<rparr>"

text \<open>
  Two environments. In the first the executable does not exist: \<^verbatim>\<open>Resolve\<close> builds
  the command and \<^verbatim>\<open>Start\<close> leaves its \<^verbatim>\<open>Process\<close> nil. In the second the start
  succeeds with pid 4321. Both visit the keys of a map in the order b, a.
\<close>

definition failing_start_env :: Env where
  "failing_start_env =
     \<lparr> Resolve = (\<lambda>ctx options. Inr \<lparr> Process = None, ProcessState = None \<rparr>),
       Start = (\<lambda>c. c),
       uuid_NewV4 = Inr ''uuid-1'',
       os_Hostname = ''host'',
       os_Signal = (\<lambda>pr sig. case pr of None \<Rightarrow> Some (OSError ''os: process not initialized'')
                                | Some x \<Rightarrow> None),
       Signal_String = (\<lambda>sig. ''signal''),
       range_keys = (\<lambda>m. filter (\<lambda>k. m k \<noteq> None) [''b'', ''a'']) \<rparr>"

definition starting_env :: Env where
  "starting_env = failing_start_env\<lparr> Start := (\<lambda>c. c\<lparr> Process := Some \<lparr> Pid = 4321 \<rparr> \<rparr>) \<rparr>"

definition missing_executable :: CreateOptions where
  "missing_executable = \<lparr> Args = [''no-such-executable''], Tags = [], started = False \<rparr>"

definition tagged_options :: CreateOptions where
  "tagged_options = \<lparr> Args = [''sleep'', ''2''], Tags = [''a''], started = False \<rparr>"

definition twice_tagged_options :: CreateOptions where
  "twice_tagged_options =
     \<lparr> Args = [''sleep'', ''2''], Tags = [''a'', ''a'', ''b''], started = False \<rparr>"

text \<open>The wrapper around the running process, its mutex free.\<close>

definition wrapped_running :: "(string basicProcess, string) localProcess" where
  "wrapped_running =
     \<lparr> proc = (basicProcess_methods starting_env, running_process),
       mutex = \<lparr> readers = 0, writer = False \<rparr> \<rparr>"

text \<open>What \<^verbatim>\<open>newBasicProcess\<close> builds from the three options in these environments.\<close>

definition failed_start_process :: "string basicProcess" where
  "failed_start_process =
     \<lparr> id' = ''uuid-1'', hostname = ''host'',
       opts = \<lparr> Args = [''no-such-executable''], Tags = [], started = True \<rparr>,
       cmd = Some \<lparr> Process = None, ProcessState = None \<rparr>,
       tags = Map.empty, triggers = [] \<rparr>"

definition tagged_process :: "string basicProcess" where
  "tagged_process =
     \<lparr> id' = ''uuid-1'', hostname = ''host'',
       opts = \<lparr> Args = [''sleep'', ''2''], Tags = [''a'', ''a''], started = True \<rparr>,
       cmd = Some \<lparr> Process = Some \<lparr> Pid = 4321 \<rparr>, ProcessState = None \<rparr>,
       tags = [''a'' \<mapsto> ()], triggers = [] \<rparr>"

definition twice_tagged_process :: "string basicProcess" where
  "twice_tagged_process =
     \<lparr> id' = ''uuid-1'', hostname = ''host'',
       opts = \<lparr> Args = [''sleep'', ''2''], Tags = [''a'', ''a'', ''b'', ''a'', ''b''],
                started = True \<rparr>,
       cmd = Some \<lparr> Process = Some \<lparr> Pid = 4321 \<rparr>, ProcessState = None \<rparr>,
       tags = [''a'' \<mapsto> (), ''b'' \<mapsto> ()], triggers = [] \<rparr>"

section \<open>Complete and Running\<close>

text \<open>
  C1. The claim is that Complete returning true excludes Running returning true. On a
  process whose captured exit status says it exited and whose pid is still the one
  the system gave it, the source answers true to both: \<^verbatim>\<open>Running\<close> tests the exit
  status only for "not exited" and then falls through to the pid test.
\<close>

theorem exited_process_Complete_and_Running:
  "basicProcess_Complete background exited_process = Return True \<and>
   basicProcess_Running background exited_process = True"
  by (simp add: basicProcess_Complete_def basicProcess_Running_def exited_process_def)

text \<open>
  Where the two do exclude each other: a complete process whose pid is negative and
  whose exit status, if captured, reports exit.
\<close>

lemma Complete_not_Running_negative_pid:
  assumes "basicProcess_Complete ctx p = Return True"
    and "cmd p = Some c" and "Process c = Some pr" and "Pid pr < 0"
    and "ProcessState c = None \<or> (\<exists>st. ProcessState c = Some st \<and> Exited st)"
  shows "\<not> basicProcess_Running ctx p"
  using assms by (auto simp add: basicProcess_Running_def)

text \<open>
  C3. The claim is that after a failed start construction succeeds, Complete returns
  true without a panic and Wait returns at once with no error. With an executable
  that does not exist the constructor does return a process, and \<^verbatim>\<open>Wait\<close> and
  \<^verbatim>\<open>Running\<close> both test \<^verbatim>\<open>p.cmd.Process == nil\<close> first; \<^verbatim>\<open>Complete\<close> does not, and
  panics on \<^verbatim>\<open>p.cmd.Process.Pid\<close>.
\<close>

theorem failed_start_Complete_panics:
  "newBasicProcess failing_start_env background missing_executable =
     (Return (Inr failed_start_process), missing_executable\<lparr> started := True \<rparr>) \<and>
   basicProcess_Complete background failed_start_process = Panic NilPointerDereference \<and>
   basicProcess_Running background failed_start_process = False \<and>
   basicProcess_Wait background failed_start_process = Return None"
  by (simp add: Let_def newBasicProcess_def failing_start_env_def missing_executable_def
      failed_start_process_def basicProcess_Complete_def basicProcess_Running_def
      basicProcess_Wait_def)

lemma Complete_panics_without_Process:
  "cmd p = Some c \<Longrightarrow> Process c = None \<Longrightarrow> ProcessState c = None \<Longrightarrow>
   basicProcess_Complete ctx p = Panic NilPointerDereference"
  by (simp add: basicProcess_Complete_def)

lemma Wait_returns_without_Process:
  "cmd p = Some c \<Longrightarrow> Process c = None \<Longrightarrow> basicProcess_Wait ctx p = Return None"
  by (simp add: basicProcess_Wait_def)

section \<open>Info\<close>

text \<open>
  C8. The claim is that the snapshot carries the pid \<open>-1\<close> exactly when the process is
  complete and the live pid exactly when it is running. On the exited process above
  both flags are true, the second \<^verbatim>\<open>if\<close> overwrites the \<open>-1\<close> of the first, and the
  snapshot of a complete process carries pid 1234.
\<close>

theorem exited_process_Info:
  "basicProcess_Info background exited_process =
     Return \<lparr> ID = ''p1'', Options = \<lparr> Args = [''true''], Tags = [], started = True \<rparr>,
              Host = ''host'', Complete = True, IsRunning = True, Successful = True,
              PID = 1234 \<rparr>"
  by (simp add: basicProcess_Info_def basicProcess_Complete_def basicProcess_Running_def
      exited_process_def)

text \<open>What a snapshot holds whenever \<^verbatim>\<open>Info\<close> returns one.\<close>

lemma Info_fields:
  assumes "basicProcess_Info ctx p = Return info"
  shows "ID info = id' p \<and> Options info = opts p \<and> Host info = hostname p \<and>
         basicProcess_Complete ctx p = Return (Complete info) \<and>
         IsRunning info = basicProcess_Running ctx p \<and>
         (IsRunning info \<longrightarrow>
            (\<exists>c pr. cmd p = Some c \<and> Process c = Some pr \<and> PID info = Pid pr)) \<and>
         (Complete info \<longrightarrow>
            (\<exists>c st. cmd p = Some c \<and> ProcessState c = Some st \<and> Successful info = Success st)) \<and>
         (Complete info \<and> \<not> IsRunning info \<longrightarrow> PID info = - 1) \<and>
         (\<not> Complete info \<and> \<not> IsRunning info \<longrightarrow> PID info = 0 \<and> \<not> Successful info)"
proof (cases "basicProcess_Complete ctx p")
  case (Panic x)
  then show ?thesis using assms by (simp add: basicProcess_Info_def)
next
  case Blocked
  then show ?thesis using assms by (simp add: basicProcess_Info_def)
next
  case (Return complete)
  then show ?thesis
    using assms
    by (cases "cmd p"; cases "ProcessState (the (cmd p))"; cases "Process (the (cmd p))")
       (auto simp add: basicProcess_Info_def basicProcess_Running_def Let_def
          split: if_splits)
qed

text \<open>\<^verbatim>\<open>Info\<close> panics where \<^verbatim>\<open>Complete\<close> does.\<close>

lemma Info_panics_with_Complete:
  "basicProcess_Complete ctx p = Panic x \<Longrightarrow> basicProcess_Info ctx p = Panic x"
  by (simp add: basicProcess_Info_def)

section \<open>RegisterTrigger\<close>

text \<open>
  C2. The claim is that a trigger that is not nil, registered on a process that has
  not reached a terminal state, is accepted and appended. The guard of the source is
  true whenever \<^verbatim>\<open>p.cmd\<close> is not nil, so the running process above, which is neither
  complete nor exited, is refused with the error meant for a complete one.
\<close>

theorem running_process_RegisterTrigger_rejected:
  "basicProcess_Complete background running_process = Return False \<and>
   basicProcess_Running background running_process = True \<and>
   basicProcess_RegisterTrigger (Some ''on-exit'') running_process =
     (Return (Some (New ''cannot register trigger for complete project'')), running_process)"
  by (simp add: basicProcess_Complete_def basicProcess_Running_def
      basicProcess_RegisterTrigger_def running_process_def)

text \<open>No call of \<^verbatim>\<open>RegisterTrigger\<close> registers anything: it refuses or panics.\<close>

lemma RegisterTrigger_with_command:
  "cmd p \<noteq> None \<Longrightarrow>
   basicProcess_RegisterTrigger trigger p =
     (Return (Some (New ''cannot register trigger for complete project'')), p)"
  by (simp add: basicProcess_RegisterTrigger_def)

lemma RegisterTrigger_without_command:
  "cmd p = None \<Longrightarrow> basicProcess_RegisterTrigger trigger p = (Panic NilPointerDereference, p)"
  by (simp add: basicProcess_RegisterTrigger_def)

lemma RegisterTrigger_never_registers:
  "fst (basicProcess_RegisterTrigger trigger p) \<noteq> Return None \<and>
   snd (basicProcess_RegisterTrigger trigger p) = p"
  by (cases "cmd p") (simp_all add: RegisterTrigger_with_command RegisterTrigger_without_command)

section \<open>Tags\<close>

text \<open>
  C5. Tagging twice with the same tag leaves the map and the ordered sequence as
  tagging once does.
\<close>

theorem Tag_idempotent:
  "basicProcess_Tag t (basicProcess_Tag t p) = basicProcess_Tag t p"
  by (simp add: basicProcess_Tag_def)

text \<open>
  C4. The claim is that map and sequence are consistent for every process, one built
  from options that carry tags included. The constructor copies the options with
  their tags and then tags the new process with each of them, so every tag of the
  options is in the sequence twice: from the single tag a, the sequence a, a.
\<close>

theorem tagged_options_duplicate_tag:
  "newBasicProcess starting_env background tagged_options =
     (Return (Inr tagged_process), tagged_options\<lparr> started := True \<rparr>) \<and>
   Tags (opts tagged_process) = [''a'', ''a''] \<and>
   dom (tags tagged_process) = {''a''} \<and>
   \<not> tags_consistent tagged_process"
  by (simp add: Let_def newBasicProcess_def starting_env_def failing_start_env_def
      tagged_options_def tagged_process_def basicProcess_Tag_def tags_consistent_def)

text \<open>
  Consistency in the words of the invariant: no duplicates, and a tag is a key of the
  map exactly when it occurs once in the sequence.
\<close>

lemma count_list_distinct:
  "distinct xs \<Longrightarrow> count_list xs t = (if t \<in> set xs then 1 else 0)"
  by (induction xs) auto

lemma tags_consistent_count:
  "tags_consistent p \<longleftrightarrow>
     distinct (Tags (opts p)) \<and>
     (\<forall>t. (tags p t \<noteq> None) = (count_list (Tags (opts p)) t = 1))"
proof (cases "distinct (Tags (opts p))")
  case True
  then have "\<And>t. (count_list (Tags (opts p)) t = 1) = (t \<in> set (Tags (opts p)))"
    by (simp add: count_list_distinct)
  then show ?thesis
    using True by (auto simp add: tags_consistent_def dom_def)
next
  case False
  then show ?thesis by (simp add: tags_consistent_def)
qed

text \<open>\<^verbatim>\<open>Tag\<close> and \<^verbatim>\<open>ResetTags\<close> themselves keep the bookkeeping consistent.\<close>

lemma Tag_consistent:
  "tags_consistent p \<Longrightarrow> tags_consistent (basicProcess_Tag t p)"
  by (auto simp add: tags_consistent_def basicProcess_Tag_def)

lemma ResetTags_consistent: "tags_consistent (basicProcess_ResetTags p)"
  by (simp add: tags_consistent_def basicProcess_ResetTags_def)

lemma run_tag_call_consistent:
  "tags_consistent p \<Longrightarrow> tags_consistent (run_tag_call p c)"
  by (cases c) (simp_all add: Tag_consistent ResetTags_consistent)

lemma tag_calls_consistent:
  "tags_consistent p \<Longrightarrow> tags_consistent (foldl run_tag_call p cs)"
  by (induction cs arbitrary: p) (simp_all add: run_tag_call_consistent)

text \<open>
  The loop of the constructor appends to the sequence it started from, and what it
  appends are the tags that were not yet keys of the map.
\<close>

lemma Tag_loop:
  "\<exists>added. Tags (opts (foldl (\<lambda>p t. basicProcess_Tag t p) p ts)) = Tags (opts p) @ added \<and>
           set added = set ts - dom (tags p)"
proof (induction ts arbitrary: p)
  case Nil
  then show ?case by simp
next
  case (Cons t ts)
  obtain added where a:
    "Tags (opts (foldl (\<lambda>p t. basicProcess_Tag t p) (basicProcess_Tag t p) ts)) =
       Tags (opts (basicProcess_Tag t p)) @ added"
    "set added = set ts - dom (tags (basicProcess_Tag t p))"
    using Cons.IH by blast
  show ?case
  proof (cases "tags p t")
    case None
    then have "Tags (opts (foldl (\<lambda>p t. basicProcess_Tag t p) p (t # ts))) =
        Tags (opts p) @ (t # added)"
      using a(1) by (simp add: basicProcess_Tag_def)
    moreover have "set (t # added) = set (t # ts) - dom (tags p)"
      using a(2) None by (auto simp add: basicProcess_Tag_def)
    ultimately show ?thesis by blast
  next
    case (Some u)
    then have "Tags (opts (foldl (\<lambda>p t. basicProcess_Tag t p) p (t # ts))) =
        Tags (opts p) @ added"
      using a(1) by (simp add: basicProcess_Tag_def)
    moreover have "set added = set (t # ts) - dom (tags p)"
      using a(2) Some by (auto simp add: basicProcess_Tag_def)
    ultimately show ?thesis by blast
  qed
qed

text \<open>So every process built from options that carry a tag has a duplicate.\<close>

lemma newBasicProcess_duplicates_tags:
  assumes "newBasicProcess env ctx options = (Return (Inr p), options')"
    and "Tags options \<noteq> []"
  shows "\<not> distinct (Tags (opts p))"
proof -
  obtain c u where p: "p = foldl (\<lambda>p t. basicProcess_Tag t p)
        \<lparr> id' = u, hostname = os_Hostname env, opts = options\<lparr> started := True \<rparr>,
          cmd = Some c, tags = Map.empty, triggers = [] \<rparr> (Tags options)"
    using assms(1)
    by (auto simp add: newBasicProcess_def Let_def split: sum.splits)
  obtain added where "Tags (opts p) = Tags options @ added" "set added = set (Tags options)"
    using Tag_loop [of "\<lparr> id' = u, hostname = os_Hostname env,
        opts = options\<lparr> started := True \<rparr>, cmd = Some c, tags = Map.empty, triggers = [] \<rparr>"
        "Tags options"] p
    by auto
  then show ?thesis
    using assms(2) by (cases "Tags options") auto
qed

lemma newBasicProcess_untagged_consistent:
  assumes "newBasicProcess env ctx options = (Return (Inr p), options')"
    and "Tags options = []"
  shows "tags_consistent p"
  using assms
  by (auto simp add: newBasicProcess_def Let_def tags_consistent_def split: sum.splits)

section \<open>GetTags\<close>

lemma foldl_append_slice: "foldl append_slice (Slice xs) ks = Slice (xs @ ks)"
  by (induction ks arbitrary: xs) simp_all

text \<open>
  C10. When \<^verbatim>\<open>range\<close> visits every key of the map once, \<^verbatim>\<open>GetTags\<close> returns a slice
  that is not nil and holds every key of the map exactly once, whatever the ordered
  sequence of the options holds.
\<close>

theorem GetTags_each_key_once:
  assumes "visits_each_key_once env (tags p)"
  shows "basicProcess_GetTags env p \<noteq> NilSlice \<and>
         (\<exists>out. basicProcess_GetTags env p = Slice out \<and> distinct out \<and>
                 set out = dom (tags p)) \<and>
         basicProcess_GetTags env (p\<lparr> opts := options \<rparr>) = basicProcess_GetTags env p"
  using assms
  by (simp add: basicProcess_GetTags_def visits_each_key_once_def foldl_append_slice)

lemma twice_tagged_process_constructed:
  "newBasicProcess starting_env background twice_tagged_options =
     (Return (Inr twice_tagged_process), twice_tagged_options\<lparr> started := True \<rparr>)"
  by (simp add: Let_def newBasicProcess_def starting_env_def failing_start_env_def
      twice_tagged_options_def twice_tagged_process_def basicProcess_Tag_def)

theorem GetTags_each_key_once_witness:
  "visits_each_key_once starting_env (tags twice_tagged_process) \<and>
   basicProcess_GetTags starting_env twice_tagged_process = Slice [''b'', ''a''] \<and>
   basicProcess_GetTags starting_env twice_tagged_process \<noteq> NilSlice \<and>
   (\<exists>out. basicProcess_GetTags starting_env twice_tagged_process = Slice out \<and>
          distinct out \<and> set out = dom (tags twice_tagged_process))"
proof -
  have h: "visits_each_key_once starting_env (tags twice_tagged_process)"
    by (auto simp add: visits_each_key_once_def starting_env_def failing_start_env_def
        twice_tagged_process_def)
  have v: "basicProcess_GetTags starting_env twice_tagged_process = Slice [''b'', ''a'']"
    by (simp add: basicProcess_GetTags_def starting_env_def failing_start_env_def
        twice_tagged_process_def)
  show ?thesis
    using h v GetTags_each_key_once [OF h] by blast
qed

section \<open>localProcess forwards\<close>

lemma under_RLock_forwards:
  "mutex lp = \<lparr> readers = 0, writer = False \<rparr> \<Longrightarrow>
   forwards lp (under_RLock call lp) (call (fst (proc lp)) (snd (proc lp)))"
  by (cases "call (fst (proc lp)) (snd (proc lp))")
     (simp add: forwards_def under_RLock_def RLock_def RUnlock_def)

lemma under_Lock_forwards:
  "mutex lp = \<lparr> readers = 0, writer = False \<rparr> \<Longrightarrow>
   forwards lp (under_Lock call lp) (call (fst (proc lp)) (snd (proc lp)))"
  by (cases "call (fst (proc lp)) (snd (proc lp))")
     (simp add: forwards_def under_Lock_def Lock_def Unlock_def)

lemma same_nilness_WithStack: "same_nilness (map_outcome WithStack r) r"
proof (cases r)
  case (Return e)
  then show ?thesis by (cases e) simp_all
qed simp_all

lemma forwards_with_stack:
  "forwards lp res (with_stack inner) \<Longrightarrow> same_nilness (fst res) (fst inner)"
  by (simp add: forwards_def with_stack_def same_nilness_WithStack)

text \<open>
  C9. With the mutex free, each of the ten methods of the wrapper gives the outcome
  of the wrapped method, leaves the receiver as the wrapped method left it and the
  mutex as it found it. The three methods that return an error pass it through
  \<^verbatim>\<open>errors.WithStack\<close>, which keeps nil nil and anything else not nil.
\<close>

theorem localProcess_forwards:
  assumes "mutex lp = \<lparr> readers = 0, writer = False \<rparr>"
  shows
   "forwards lp (localProcess_ID lp) (Process_ID (fst (proc lp)) (snd (proc lp))) \<and>
    forwards lp (localProcess_Info ctx lp) (Process_Info (fst (proc lp)) ctx (snd (proc lp))) \<and>
    forwards lp (localProcess_Running ctx lp)
      (Process_Running (fst (proc lp)) ctx (snd (proc lp))) \<and>
    forwards lp (localProcess_Complete ctx lp)
      (Process_Complete (fst (proc lp)) ctx (snd (proc lp))) \<and>
    forwards lp (localProcess_Tag t lp) (Process_Tag (fst (proc lp)) t (snd (proc lp))) \<and>
    forwards lp (localProcess_ResetTags lp) (Process_ResetTags (fst (proc lp)) (snd (proc lp))) \<and>
    forwards lp (localProcess_GetTags lp) (Process_GetTags (fst (proc lp)) (snd (proc lp))) \<and>
    forwards lp (localProcess_Signal ctx sig lp)
      (with_stack (Process_Signal (fst (proc lp)) ctx sig (snd (proc lp)))) \<and>
    same_nilness (fst (localProcess_Signal ctx sig lp))
      (fst (Process_Signal (fst (proc lp)) ctx sig (snd (proc lp)))) \<and>
    forwards lp (localProcess_RegisterTrigger trigger lp)
      (with_stack (Process_RegisterTrigger (fst (proc lp)) trigger (snd (proc lp)))) \<and>
    same_nilness (fst (localProcess_RegisterTrigger trigger lp))
      (fst (Process_RegisterTrigger (fst (proc lp)) trigger (snd (proc lp)))) \<and>
    forwards lp (localProcess_Wait ctx lp)
      (with_stack (Process_Wait (fst (proc lp)) ctx (snd (proc lp)))) \<and>
    same_nilness (fst (localProcess_Wait ctx lp))
      (fst (Process_Wait (fst (proc lp)) ctx (snd (proc lp))))"
proof -
  note r = under_RLock_forwards [OF assms]
  note w = under_Lock_forwards [OF assms]
  have a: "forwards lp (localProcess_ID lp) (Process_ID (fst (proc lp)) (snd (proc lp)))"
    unfolding localProcess_ID_def by (rule r)
  have b: "forwards lp (localProcess_Info ctx lp)
      (Process_Info (fst (proc lp)) ctx (snd (proc lp)))"
    unfolding localProcess_Info_def by (rule r)
  have c: "forwards lp (localProcess_Running ctx lp)
      (Process_Running (fst (proc lp)) ctx (snd (proc lp)))"
    unfolding localProcess_Running_def by (rule r)
  have d: "forwards lp (localProcess_Complete ctx lp)
      (Process_Complete (fst (proc lp)) ctx (snd (proc lp)))"
    unfolding localProcess_Complete_def by (rule r)
  have e: "forwards lp (localProcess_Tag t lp) (Process_Tag (fst (proc lp)) t (snd (proc lp)))"
    unfolding localProcess_Tag_def by (rule w)
  have f: "forwards lp (localProcess_ResetTags lp)
      (Process_ResetTags (fst (proc lp)) (snd (proc lp)))"
    unfolding localProcess_ResetTags_def by (rule w)
  have g: "forwards lp (localProcess_GetTags lp)
      (Process_GetTags (fst (proc lp)) (snd (proc lp)))"
    unfolding localProcess_GetTags_def by (rule r)
  have s: "forwards lp (localProcess_Signal ctx sig lp)
      (with_stack (Process_Signal (fst (proc lp)) ctx sig (snd (proc lp))))"
    unfolding localProcess_Signal_def by (rule w)
  have t: "forwards lp (localProcess_RegisterTrigger trigger lp)
      (with_stack (Process_RegisterTrigger (fst (proc lp)) trigger (snd (proc lp))))"
    unfolding localProcess_RegisterTrigger_def by (rule w)
  have u: "forwards lp (localProcess_Wait ctx lp)
      (with_stack (Process_Wait (fst (proc lp)) ctx (snd (proc lp))))"
    unfolding localProcess_Wait_def by (rule w)
  show ?thesis
    using a b c d e f g s t u forwards_with_stack [OF s] forwards_with_stack [OF t]
      forwards_with_stack [OF u]
    by simp
qed

theorem localProcess_forwards_witness:
  "mutex wrapped_running = \<lparr> readers = 0, writer = False \<rparr> \<and>
   forwards wrapped_running (localProcess_ID wrapped_running) (Return ''p2'', running_process) \<and>
   forwards wrapped_running (localProcess_Tag ''x'' wrapped_running)
     (Return (), basicProcess_Tag ''x'' running_process) \<and>
   forwards wrapped_running (localProcess_RegisterTrigger (Some ''on-exit'') wrapped_running)
     (Return (Some (Stacked (New ''cannot register trigger for complete project''))),
      running_process) \<and>
   forwards wrapped_running (localProcess_Wait background wrapped_running)
     (Blocked, running_process)"
proof -
  have h: "mutex wrapped_running = \<lparr> readers = 0, writer = False \<rparr>"
    by (simp add: wrapped_running_def)
  show ?thesis
    using h localProcess_forwards [OF h, of background "''x''" 15 "Some ''on-exit''"]
    by (simp add: wrapped_running_def basicProcess_methods_def basicProcess_ID_def
        basicProcess_Wait_def basicProcess_RegisterTrigger_def with_stack_def
        running_process_def)
qed

text \<open>
  A wrapper whose mutex a writer holds parks every caller, and one that readers hold
  parks the writers: the lock, not the wrapped process, decides then.
\<close>

lemma under_Lock_parks:
  "writer (mutex lp) \<or> 0 < readers (mutex lp) \<Longrightarrow> under_Lock call lp = (Blocked, lp)"
  by (simp add: under_Lock_def Lock_def)

lemma under_RLock_parks:
  "writer (mutex lp) \<Longrightarrow> under_RLock call lp = (Blocked, lp)"
  by (simp add: under_RLock_def RLock_def)

end
